theory Spec2Isabelle
  imports Main "HOL-Library.Multiset" "HOL-Library.Sublist" "HOL-Library.Char_ord" "HOL-Library.List_Lexorder"
begin

section \<open>Strings\<close>

text \<open>
  Python strings are modelled as \<^typ>\<open>string\<close> holding the UTF-8 bytes of the text. The
  operations used by \<^verbatim>\<open>main.py\<close> (concatenation, \<^verbatim>\<open>startswith\<close>, \<^verbatim>\<open>in\<close>,
  \<^verbatim>\<open>split\<close>, \<^verbatim>\<open>replace\<close>, comparison) only ever look for ASCII patterns, and the byte
  order of UTF-8 is the order of code points, so every one of them gives the same answer
  on bytes as on code points.
\<close>

definition NL :: string where
  "NL = [CHR 0x0A]"

text \<open>The connectors \<^verbatim>\<open>"L-- "\<close> (terminal), \<^verbatim>\<open>"|-- "\<close> (continuation) and
  \<^verbatim>\<open>"|   "\<close> of line 19, 28 and 36, drawn with the box characters U+2514, U+251C,
  U+2502 and U+2500.\<close>

definition ELL :: string where
  "ELL = [CHR 0xE2, CHR 0x94, CHR 0x94, CHR 0xE2, CHR 0x94, CHR 0x80, CHR 0xE2, CHR 0x94, CHR 0x80] @ '' ''"

definition TEE :: string where
  "TEE = [CHR 0xE2, CHR 0x94, CHR 0x9C, CHR 0xE2, CHR 0x94, CHR 0x80, CHR 0xE2, CHR 0x94, CHR 0x80] @ '' ''"

definition BAR :: string where
  "BAR = [CHR 0xE2, CHR 0x94, CHR 0x82] @ ''   ''"

definition SPACES :: string where
  "SPACES = ''    ''"

definition startswith :: "string \<Rightarrow> string \<Rightarrow> bool" where
  "startswith s p = prefix p s"

text \<open>\<^verbatim>\<open>s.split(sep)\<close> for a separator of one character. The list is never empty, so
  the first branch of the inner \<open>case\<close> is never taken and \<^verbatim>\<open>[-1]\<close> never raises.\<close>

fun split_str :: "char \<Rightarrow> string \<Rightarrow> string list" where
  "split_str sep [] = [[]]"
| "split_str sep (c # cs) =
     (if c = sep then [] # split_str sep cs
      else (case split_str sep cs of
              [] \<Rightarrow> [[c]]
            | w # ws \<Rightarrow> (c # w) # ws))"

text \<open>\<^verbatim>\<open>s.replace(old, new)\<close>: one pass from the left over the occurrences of
  \<^verbatim>\<open>old\<close> that do not overlap. With an empty \<^verbatim>\<open>old\<close> Python puts \<^verbatim>\<open>new\<close> before
  every character and at the end.\<close>

fun replace_from :: "string \<Rightarrow> string \<Rightarrow> string \<Rightarrow> string" where
  "replace_from old new [] = []"
| "replace_from old new (c # cs) =
     (if prefix old (c # cs) then new @ replace_from old new (drop (length old - 1) cs)
      else c # replace_from old new cs)"

definition str_replace :: "string \<Rightarrow> string \<Rightarrow> string \<Rightarrow> string" where
  "str_replace s old new =
     (if old = [] then new @ concat (map (\<lambda>c. c # new) s) else replace_from old new s)"

fun join_str :: "string \<Rightarrow> string list \<Rightarrow> string" where
  "join_str sep [] = []"
| "join_str sep [x] = x"
| "join_str sep (x # y # ys) = x @ sep @ join_str sep (y # ys)"

section \<open>Paths\<close>

text \<open>
  \<^verbatim>\<open>pathlib.Path(s)\<close> on a POSIX system: the string is cut at \<^verbatim>\<open>/\<close>, empty segments
  and \<^verbatim>\<open>.\<close> segments are dropped, the root is \<^verbatim>\<open>/\<close> (or \<^verbatim>\<open>//\<close> for exactly two leading
  slashes). \<^verbatim>\<open>name\<close> is the last remaining segment or the empty string, \<^verbatim>\<open>str\<close> is the
  root followed by the segments joined with \<^verbatim>\<open>/\<close>, or \<^verbatim>\<open>.\<close> when both are empty.
\<close>

definition path_tail :: "string \<Rightarrow> string list" where
  "path_tail s = filter (\<lambda>p. p \<noteq> [] \<and> p \<noteq> ''.'') (split_str CHR ''/'' s)"

definition path_root :: "string \<Rightarrow> string" where
  "path_root s =
     (if startswith s ''//'' \<and> \<not> startswith s ''///'' then ''//''
      else if startswith s ''/'' then ''/'' else [])"

definition path_name :: "string \<Rightarrow> string" where
  "path_name s = (case path_tail s of [] \<Rightarrow> [] | p # ps \<Rightarrow> last (p # ps))"

definition path_str :: "string \<Rightarrow> string" where
  "path_str s =
     (if path_root s = [] \<and> path_tail s = [] then ''.''
      else path_root s @ join_str ''/'' (path_tail s))"

section \<open>Errors\<close>

text \<open>
  The exceptions that can travel through \<^verbatim>\<open>main.py\<close>, all subclasses of
  \<^verbatim>\<open>Exception\<close>, which is what line 138 catches. The operating-system errors carry
  the path they are about; \<open>External\<close> is any exception raised by a collaborator
  (\<^verbatim>\<open>git\<close>, \<^verbatim>\<open>tempfile\<close>, \<^verbatim>\<open>FileScanner\<close>, \<^verbatim>\<open>open\<close>) with its message.
  \<open>str_of_error\<close> is \<^verbatim>\<open>str(e)\<close>; for an operating-system error it is the text of the
  error number followed by the path, without the quoting Python puts around the path.
\<close>

datatype error =
    ValueError string
  | FileNotFoundError string
  | NotADirectoryError string
  | PermissionError string
  | External string

fun str_of_error :: "error \<Rightarrow> string" where
  "str_of_error (ValueError m) = m"
| "str_of_error (FileNotFoundError p) = ''[Errno 2] No such file or directory: '' @ p"
| "str_of_error (NotADirectoryError p) = ''[Errno 20] Not a directory: '' @ p"
| "str_of_error (PermissionError p) = ''[Errno 13] Permission denied: '' @ p"
| "str_of_error (External m) = m"

section \<open>The file system as the tree renderer sees it\<close>

text \<open>
  A \<open>node\<close> is a \<^verbatim>\<open>Path\<close> object together with what the file system holds there:
  its \<^verbatim>\<open>name\<close>, its string form, its kind, and for a readable directory the entries
  \<^verbatim>\<open>iterdir\<close> yields, in the order the operating system gives them. \<open>KLocked\<close> is a
  directory that can not be listed, \<open>KOther\<close> is anything that is neither a file nor a
  directory (a socket, a broken link), \<open>KMissing\<close> a path that does not exist.
\<close>

datatype kind = KFile | KDir | KLocked | KOther | KMissing

datatype node = Node (name: string) (str: string) (kind: kind) (listing: "node list")

definition is_dir :: "node \<Rightarrow> bool" where
  "is_dir p = (kind p = KDir \<or> kind p = KLocked)"

definition is_file :: "node \<Rightarrow> bool" where
  "is_file p = (kind p = KFile)"

definition iterdir :: "node \<Rightarrow> error + node list" where
  "iterdir p =
     (case kind p of
        KDir \<Rightarrow> Inr (listing p)
      | KLocked \<Rightarrow> Inl (PermissionError (str p))
      | KMissing \<Rightarrow> Inl (FileNotFoundError (str p))
      | _ \<Rightarrow> Inl (NotADirectoryError (str p)))"

text \<open>The display name of a path, \<^verbatim>\<open>path.name or str(path)\<close> in line 19: the empty
  string is false.\<close>

definition display :: "node \<Rightarrow> string" where
  "display p = (if name p \<noteq> [] then name p else str p)"

section \<open>DirectoryStructureScanner.generate\_tree\<close>

text \<open>
  Lines 15 to 38. \<^verbatim>\<open>sorted\<close> compares \<^verbatim>\<open>Path\<close> objects; the entries of one directory
  share their parent, so the comparison is the one of their names, and \<^const>\<open>sort_key\<close>
  is stable as \<^verbatim>\<open>sorted\<close> is. The two \<^verbatim>\<open>for\<close> loops over \<^verbatim>\<open>enumerate\<close> are folds over
  \<^const>\<open>enumerate\<close> that carry \<^verbatim>\<open>output\<close>; an exception in a recursive call ends the
  first loop with that exception. The parameter \<^verbatim>\<open>prefix\<close> is written \<open>pfx\<close>.
\<close>

function generate_tree :: "node \<Rightarrow> string \<Rightarrow> bool \<Rightarrow> error + string" where
  "generate_tree (Node nm st k es) pfx is_last =
    (let output = pfx @ (if is_last then ELL else TEE) @ display (Node nm st k es) @ NL
     in case iterdir (Node nm st k es) of
          Inl e \<Rightarrow> Inl e
        | Inr entries \<Rightarrow>
           (let dirs = sort_key name (filter is_dir entries);
                files = sort_key name (filter is_file entries);
                dirs = filter (\<lambda>d. \<not> startswith (name d) ''.'' \<and> name d \<noteq> ''__pycache__'') dirs;
                files = filter (\<lambda>f. \<not> startswith (name f) ''.'') files;
                next_prefix = pfx @ (if is_last then SPACES else BAR);
                output = fold (\<lambda>(i, dir_path) acc.
                            case acc of
                              Inl e \<Rightarrow> Inl e
                            | Inr out \<Rightarrow>
                               (let is_last_entry = (i = length dirs - 1 \<and> files = [])
                                in case generate_tree dir_path next_prefix is_last_entry of
                                     Inl e \<Rightarrow> Inl e
                                   | Inr sub \<Rightarrow> Inr (out @ sub)))
                          (enumerate 0 dirs) (Inr output)
            in case output of
                 Inl e \<Rightarrow> Inl e
               | Inr output \<Rightarrow>
                   Inr (fold (\<lambda>(i, file_path) out.
                          (let is_last_file = (i = length files - 1)
                           in out @ next_prefix @ (if is_last_file then ELL else TEE)
                                @ name file_path @ NL))
                        (enumerate 0 files) output)))"
  by pat_completeness auto

lemma size_in_set: "x \<in> set xs \<Longrightarrow> size x < Suc (size_list size xs)"
  by (induction xs) auto

lemma enumerate_member: "(i, x) \<in> set (enumerate n xs) \<Longrightarrow> x \<in> set xs"
  by (auto simp: in_set_enumerate_eq)

lemma iterdir_Inr: "iterdir p = Inr es \<Longrightarrow> kind p = KDir \<and> es = listing p"
  by (auto simp: iterdir_def split: kind.splits)

lemma sub_size:
  assumes "iterdir (Node nm st k es) = Inr b"
    and "(i, d) \<in> set (enumerate n (filter P (sort_key f (filter Q b))))"
  shows "size d < Suc (size_list size es)"
proof -
  from assms(1) have "b = es" by (auto dest: iterdir_Inr)
  moreover from assms(2) have "d \<in> set b" by (auto dest: enumerate_member)
  ultimately show ?thesis by (auto dest: size_in_set)
qed

termination generate_tree
  by (relation "measure (\<lambda>(p, pfx, l). size p)") (auto elim: sub_size)

text \<open>The call \<^verbatim>\<open>generate_tree()\<close> of line 63: \<^verbatim>\<open>path\<close> is the root, \<^verbatim>\<open>prefix\<close> is
  empty and \<^verbatim>\<open>is_last\<close> is true.\<close>

definition generate_tree_default :: "node \<Rightarrow> error + string" where
  "generate_tree_default root_path = generate_tree root_path [] True"

section \<open>The collaborators\<close>

text \<open>
  \<^verbatim>\<open>FileInfo\<close> is declared in \<^verbatim>\<open>core/file_scanner.py\<close>; \<^verbatim>\<open>main.py\<close> reads its
  \<^verbatim>\<open>path\<close> and its \<^verbatim>\<open>content\<close>, which is \<^verbatim>\<open>None\<close> for a file that could not be read.
\<close>

record fileinfo =
  path :: string
  content :: "string option"

text \<open>
  What \<^verbatim>\<open>main.py\<close> takes from outside, as parameters of a run:
  \<^verbatim>\<open>Settings.get_timestamp()\<close> and \<^verbatim>\<open>Settings.DEFAULT_EXTENSIONS\<close>;
  \<^verbatim>\<open>tempfile.mkdtemp()\<close>, which gives the path of the directory it created or raises;
  \<^verbatim>\<open>git.Repo.clone_from(url, dir)\<close>, given by what it leaves at \<^verbatim>\<open>dir\<close> (the entries of
  the directory, or \<open>None\<close> when the directory is gone) and by the exception it raises, if
  any; \<^verbatim>\<open>FileScanner(work_dir, extensions).scan_files()\<close>, which only reads;
  the two renderings of \<^verbatim>\<open>datetime.now()\<close>; and \<^verbatim>\<open>open(file, 'w')\<close> with the write,
  which raises or not.
\<close>

record env =
  get_timestamp :: string
  DEFAULT_EXTENSIONS :: "string set"
  mkdtemp :: "error + string"
  clone_from :: "string \<Rightarrow> string \<Rightarrow> node list option \<times> error option"
  scan_files :: "node \<Rightarrow> string set \<Rightarrow> error + fileinfo list"
  now_long :: string
  now_short :: string
  write_file :: "string \<Rightarrow> string \<Rightarrow> error option"

text \<open>
  The file system of a run maps a path to what is there: its kind and, for a directory,
  its entries. \<^verbatim>\<open>Path(p).exists()\<close> is \<open>fs p \<noteq> None\<close>. \<open>open_path\<close> is the \<^verbatim>\<open>Path\<close>
  object made from a string, with what the file system holds at it.
\<close>

type_synonym fs = "string \<Rightarrow> (kind \<times> node list) option"

definition exists_path :: "fs \<Rightarrow> string \<Rightarrow> bool" where
  "exists_path fs p = (fs p \<noteq> None)"

definition open_path :: "fs \<Rightarrow> string \<Rightarrow> node" where
  "open_path fs p =
     (case fs p of
        None \<Rightarrow> Node (path_name p) (path_str p) KMissing []
      | Some (k, es) \<Rightarrow> Node (path_name p) (path_str p) k es)"

text \<open>\<^verbatim>\<open>shutil.rmtree(d)\<close> deletes the directory and everything under it; it raises when
  \<^verbatim>\<open>d\<close> does not exist or is not a directory it can list.\<close>

definition under :: "string \<Rightarrow> string \<Rightarrow> bool" where
  "under d p = (p = d \<or> prefix (d @ ''/'') p)"

definition rmtree :: "string \<Rightarrow> fs \<Rightarrow> error + fs" where
  "rmtree d fs =
     (case fs d of
        None \<Rightarrow> Inl (FileNotFoundError d)
      | Some (k, es) \<Rightarrow>
          (if k = KDir then Inr (\<lambda>p. if under d p then None else fs p)
           else if k = KLocked then Inl (PermissionError d)
           else Inl (NotADirectoryError d)))"

section \<open>MarkdownGenerator\<close>

record generator =
  target_path :: string
  timestamp :: string
  temp_dir :: "string option"
  is_github :: bool
  target_extensions :: "string set"

text \<open>Lines 41 to 47. \<^verbatim>\<open>'github.com' in target_path\<close> is \<^const>\<open>sublist\<close>; an absent or
  empty set of extensions gives the default set.\<close>

definition init :: "env \<Rightarrow> string \<Rightarrow> string set option \<Rightarrow> generator" where
  "init env target exts =
     \<lparr> target_path = target,
       timestamp = get_timestamp env,
       temp_dir = None,
       is_github = ((startswith target ''http://'' \<or> startswith target ''https://'')
                      \<and> sublist ''github.com'' target),
       target_extensions =
         (case exts of
            None \<Rightarrow> DEFAULT_EXTENSIONS env
          | Some x \<Rightarrow> if x = {} then DEFAULT_EXTENSIONS env else x) \<rparr>"

text \<open>Lines 101 to 105.\<close>

definition get_name :: "generator \<Rightarrow> string" where
  "get_name self =
     (if is_github self
      then str_replace (last (split_str CHR ''/'' (target_path self))) ''.git'' []
      else path_name (target_path self))"

text \<open>Lines 80 to 87; the heading is the name followed by \<^verbatim>\<open>" - "\<close> and the Japanese for
  "directory structure", the second line the Japanese for "generated at".\<close>

definition STRUCTURE_TITLE :: string where
  "STRUCTURE_TITLE = '' - '' @ [CHR 0xE3, CHR 0x83, CHR 0x87, CHR 0xE3, CHR 0x82, CHR 0xA3,
     CHR 0xE3, CHR 0x83, CHR 0xAC, CHR 0xE3, CHR 0x82, CHR 0xAF, CHR 0xE3, CHR 0x83, CHR 0x88,
     CHR 0xE3, CHR 0x83, CHR 0xAA, CHR 0xE6, CHR 0xA7, CHR 0x8B, CHR 0xE9, CHR 0x80, CHR 0xA0]"

definition GENERATED_AT :: string where
  "GENERATED_AT = [CHR 0xE7, CHR 0x94, CHR 0x9F, CHR 0xE6, CHR 0x88, CHR 0x90, CHR 0xE6,
     CHR 0x97, CHR 0xA5, CHR 0xE6, CHR 0x99, CHR 0x82] @ '': ''"

definition create_structure_markdown :: "env \<Rightarrow> generator \<Rightarrow> string \<Rightarrow> string" where
  "create_structure_markdown env self tree_structure =
     (let nm = get_name self;
          c = ''# '' @ nm @ STRUCTURE_TITLE @ NL @ NL;
          c = c @ GENERATED_AT @ now_long env @ NL @ NL;
          c = c @ ''```'' @ NL;
          c = c @ tree_structure;
          c = c @ ''```'' @ NL
      in c)"

text \<open>Lines 89 to 99: the loop carries \<^verbatim>\<open>content\<close>, here \<open>acc\<close>.\<close>

definition create_content_markdown :: "fileinfo list \<Rightarrow> string" where
  "create_content_markdown files =
     fold (\<lambda>file acc.
             (let acc = acc @ ''## '' @ path file @ NL;
                  acc = acc @ ''------------'' @ NL;
                  acc = (case content file of
                           Some text \<Rightarrow> acc @ text
                         | None \<Rightarrow> acc @ ''# Failed to read content'')
              in acc @ NL @ NL))
          files []"

text \<open>
  Lines 52 to 59, the acquisition of the working directory: a remote target is cloned into
  a fresh temporary directory, whose path is stored in \<^verbatim>\<open>self.temp_dir\<close> before the clone
  starts; a local target is only asked whether it exists.
\<close>

definition acquire :: "env \<Rightarrow> generator \<Rightarrow> fs \<Rightarrow> (error + string) \<times> generator \<times> fs" where
  "acquire env self fs =
     (if is_github self then
        (case mkdtemp env of
           Inl e \<Rightarrow> (Inl e, self, fs)
         | Inr t \<Rightarrow>
             (let self = self\<lparr>temp_dir := Some t\<rparr>;
                  fs = fs(t \<mapsto> (KDir, []))
              in case clone_from env (target_path self) t of
                   (left, raised) \<Rightarrow>
                     (let fs = (case left of None \<Rightarrow> fs(t := None) | Some es \<Rightarrow> fs(t \<mapsto> (KDir, es)))
                      in case raised of
                           Some e \<Rightarrow> (Inl e, self, fs)
                         | None \<Rightarrow> (Inr t, self, fs))))
      else
        (let work_dir = target_path self
         in if \<not> exists_path fs work_dir
            then (Inl (ValueError (''Directory not found: '' @ path_str work_dir)), self, fs)
            else (Inr work_dir, self, fs)))"

text \<open>Lines 51 to 73, the body of the \<^verbatim>\<open>try\<close>.\<close>

definition try_body ::
  "env \<Rightarrow> generator \<Rightarrow> fs \<Rightarrow> (error + string \<times> string \<times> fileinfo list) \<times> generator \<times> fs" where
  "try_body env self fs =
     (case acquire env self fs of
        (Inl e, self, fs) \<Rightarrow> (Inl e, self, fs)
      | (Inr work_dir, self, fs) \<Rightarrow>
          (case generate_tree_default (open_path fs work_dir) of
             Inl e \<Rightarrow> (Inl e, self, fs)
           | Inr tree_structure \<Rightarrow>
               (case scan_files env (open_path fs work_dir) (target_extensions self) of
                  Inl e \<Rightarrow> (Inl e, self, fs)
                | Inr files \<Rightarrow>
                    (let structure_md = create_structure_markdown env self tree_structure;
                         content_md = create_content_markdown files
                     in (Inr (content_md, structure_md, files), self, fs)))))"

text \<open>Lines 75 to 78, the \<^verbatim>\<open>finally\<close> block: a \<^verbatim>\<open>Path\<close> is always true, \<^verbatim>\<open>None\<close> is
  false. The block gives the exception it raises, if any, and the file system.\<close>

definition finally_block :: "generator \<Rightarrow> fs \<Rightarrow> error option \<times> fs" where
  "finally_block self fs =
     (case temp_dir self of
        None \<Rightarrow> (None, fs)
      | Some t \<Rightarrow>
          (if is_github self \<and> exists_path fs t
           then (case rmtree t fs of Inl e \<Rightarrow> (Some e, fs) | Inr fs' \<Rightarrow> (None, fs'))
           else (None, fs)))"

text \<open>Lines 49 to 78: the \<^verbatim>\<open>finally\<close> block runs however the body ends, and an exception
  of its own replaces the outcome of the body.\<close>

definition generate_markdowns ::
  "env \<Rightarrow> generator \<Rightarrow> fs \<Rightarrow> (error + string \<times> string \<times> fileinfo list) \<times> generator \<times> fs" where
  "generate_markdowns env self fs =
     (case try_body env self fs of
        (r, self, fs) \<Rightarrow>
          (case finally_block self fs of
             (Some e, fs) \<Rightarrow> (Inl e, self, fs)
           | (None, fs) \<Rightarrow> (r, self, fs)))"

section \<open>main\<close>

definition USAGE :: string where
  "USAGE = ''Usage: python main.py <github_url or directory_path>''"

definition DONE_MSG :: string where
  "DONE_MSG = [CHR 0xE7, CHR 0x94, CHR 0x9F, CHR 0xE6, CHR 0x88, CHR 0x90, CHR 0xE5, CHR 0xAE,
     CHR 0x8C, CHR 0xE4, CHR 0xBA, CHR 0x86] @ '':''"

definition CONTENT_MSG :: string where
  "CONTENT_MSG = ''- '' @ [CHR 0xE3, CHR 0x83, CHR 0x95, CHR 0xE3, CHR 0x82, CHR 0xA1, CHR 0xE3,
     CHR 0x82, CHR 0xA4, CHR 0xE3, CHR 0x83, CHR 0xAB, CHR 0xE5, CHR 0x86, CHR 0x85, CHR 0xE5,
     CHR 0xAE, CHR 0xB9] @ '': ''"

definition STRUCTURE_MSG :: string where
  "STRUCTURE_MSG = ''- '' @ [CHR 0xE3, CHR 0x83, CHR 0x87, CHR 0xE3, CHR 0x82, CHR 0xA3, CHR 0xE3,
     CHR 0x83, CHR 0xAC, CHR 0xE3, CHR 0x82, CHR 0xAF, CHR 0xE3, CHR 0x83, CHR 0x88, CHR 0xE3,
     CHR 0x83, CHR 0xAA, CHR 0xE6, CHR 0xA7, CHR 0x8B, CHR 0xE9, CHR 0x80, CHR 0xA0] @ '': ''"

definition ERROR_MSG :: string where
  "ERROR_MSG = [CHR 0xE3, CHR 0x82, CHR 0xA8, CHR 0xE3, CHR 0x83, CHR 0xA9, CHR 0xE3, CHR 0x83,
     CHR 0xBC, CHR 0xE3, CHR 0x81, CHR 0x8C, CHR 0xE7, CHR 0x99, CHR 0xBA, CHR 0xE7, CHR 0x94,
     CHR 0x9F, CHR 0xE3, CHR 0x81, CHR 0x97, CHR 0xE3, CHR 0x81, CHR 0xBE, CHR 0xE3, CHR 0x81,
     CHR 0x97, CHR 0xE3, CHR 0x81, CHR 0x9F] @ '': ''"

text \<open>
  Lines 107 to 140. A run of \<^verbatim>\<open>main\<close> is given by \<^verbatim>\<open>sys.argv\<close>; it ends with its return
  value, the lines it printed on standard output, the files it wrote and the file system
  the pipeline left.
\<close>

record outcome =
  code :: int
  stdout :: "string list"
  written :: "(string \<times> string) list"
  disk :: fs

definition main :: "env \<Rightarrow> string list \<Rightarrow> fs \<Rightarrow> outcome" where
  "main env argv fs =
     (if length argv \<noteq> 2
      then \<lparr> code = 1, stdout = [USAGE], written = [], disk = fs \<rparr>
      else
        (let target = argv ! 1;
             out = [''Processing: '' @ target];
             gen = init env target None
         in case generate_markdowns env gen fs of
              (Inl e, gen, fs) \<Rightarrow>
                \<lparr> code = 1, stdout = out @ [ERROR_MSG @ str_of_error e], written = [], disk = fs \<rparr>
            | (Inr (content_md, structure_md, files), gen, fs) \<Rightarrow>
                (let stamp = now_short env;
                     nm = get_name gen;
                     content_file = nm @ ''_content_'' @ stamp @ ''.md'';
                     structure_file = nm @ ''_structure_'' @ stamp @ ''.md''
                 in case write_file env content_file content_md of
                      Some e \<Rightarrow>
                        \<lparr> code = 1, stdout = out @ [ERROR_MSG @ str_of_error e],
                          written = [], disk = fs \<rparr>
                    | None \<Rightarrow>
                        (case write_file env structure_file structure_md of
                           Some e \<Rightarrow>
                             \<lparr> code = 1, stdout = out @ [ERROR_MSG @ str_of_error e],
                               written = [(content_file, content_md)], disk = fs \<rparr>
                         | None \<Rightarrow>
                             \<lparr> code = 0,
                               stdout = out @ [DONE_MSG, CONTENT_MSG @ content_file,
                                               STRUCTURE_MSG @ structure_file],
                               written = [(content_file, content_md),
                                          (structure_file, structure_md)],
                               disk = fs \<rparr>))))"

section \<open>An example environment\<close>

text \<open>Collaborators for the example runs: a temporary directory \<^verbatim>\<open>/tmp/tmpq1\<close>, a clone
  with the given outcome, a scanner that finds nothing, writes that succeed.\<close>

definition example_env :: "node list option \<times> error option \<Rightarrow> env" where
  "example_env cloned =
     \<lparr> get_timestamp = ''20240101_000000'',
       DEFAULT_EXTENSIONS = {''.py'', ''.md''},
       mkdtemp = Inr ''/tmp/tmpq1'',
       clone_from = (\<lambda>url dir. cloned),
       scan_files = (\<lambda>work_dir exts. Inr []),
       now_long = ''2024-01-01 00:00:00'',
       now_short = ''20240101_000000'',
       write_file = (\<lambda>file text. None) \<rparr>"

section \<open>The rendered tree\<close>

lemma fold_raised:
  "fold (\<lambda>(i, d) acc. case acc of Inl e \<Rightarrow> Inl e | Inr out \<Rightarrow> F i d out) xs (Inl e) = Inl e"
  by (induction xs) (auto split: prod.splits)

lemma fold_dirs:
  assumes "fold (\<lambda>(i, d) acc. case acc of Inl e \<Rightarrow> Inl e
                   | Inr out \<Rightarrow> (case g i d of Inl e \<Rightarrow> Inl e | Inr sub \<Rightarrow> Inr (out @ sub)))
             xs (Inr out0) = Inr r"
  shows "\<exists>subs. length subs = length xs
           \<and> (\<forall>j<length xs. g (fst (xs ! j)) (snd (xs ! j)) = Inr (subs ! j))
           \<and> r = out0 @ concat subs"
  using assms
proof (induction xs arbitrary: out0)
  case Nil
  then show ?case by simp
next
  case (Cons x xs)
  obtain i d where x: "x = (i, d)" by (cases x)
  show ?case
  proof (cases "g i d")
    case (Inl e)
    with Cons.prems x show ?thesis by (simp add: fold_raised)
  next
    case (Inr sub)
    with Cons.prems x have "fold (\<lambda>(i, d) acc. case acc of Inl e \<Rightarrow> Inl e
                   | Inr out \<Rightarrow> (case g i d of Inl e \<Rightarrow> Inl e | Inr sub \<Rightarrow> Inr (out @ sub)))
             xs (Inr (out0 @ sub)) = Inr r" by simp
    from Cons.IH[OF this] obtain subs where s: "length subs = length xs"
      "\<forall>j<length xs. g (fst (xs ! j)) (snd (xs ! j)) = Inr (subs ! j)"
      "r = (out0 @ sub) @ concat subs" by blast
    have "\<forall>j<length (x # xs). g (fst ((x # xs) ! j)) (snd ((x # xs) ! j)) = Inr ((sub # subs) ! j)"
    proof (intro allI impI)
      fix j assume "j < length (x # xs)"
      then show "g (fst ((x # xs) ! j)) (snd ((x # xs) ! j)) = Inr ((sub # subs) ! j)"
        using s(2) Inr x by (cases j) auto
    qed
    with s(1,3) show ?thesis
      by (intro exI[of _ "sub # subs"]) simp
  qed
qed

lemma fold_files:
  "fold (\<lambda>(i, f) out. out @ h i f) xs out0 = out0 @ concat (map (\<lambda>(i, f). h i f) xs)"
  by (induction xs arbitrary: out0) (auto split: prod.splits)

lemma generate_tree_not_dir:
  "k \<noteq> KDir \<Longrightarrow> generate_tree (Node nm st k es) pfx l \<noteq> Inr out"
  by (cases k) (simp_all add: iterdir_def)

lemma generate_tree_unfolded:
  assumes "generate_tree (Node nm st k es) pfx l = Inr out"
  shows "\<exists>subs. 
      (let dirs = filter (\<lambda>d. \<not> startswith (name d) ''.'' \<and> name d \<noteq> ''__pycache__'')
                    (sort_key name (filter is_dir es));
           files = filter (\<lambda>f. \<not> startswith (name f) ''.'') (sort_key name (filter is_file es));
           np = pfx @ (if l then SPACES else BAR)
       in length subs = length dirs
        \<and> (\<forall>j<length dirs. generate_tree (dirs ! j) np (j = length dirs - 1 \<and> files = []) = Inr (subs ! j))
        \<and> out = pfx @ (if l then ELL else TEE) @ display (Node nm st k es) @ NL @ concat subs
             @ concat (map (\<lambda>(i, f). np @ (if i = length files - 1 then ELL else TEE) @ name f @ NL)
                 (enumerate 0 files)))"
proof -
  have k: "k = KDir" using assms generate_tree_not_dir by blast
  define dirs where "dirs = filter (\<lambda>d. \<not> startswith (name d) ''.'' \<and> name d \<noteq> ''__pycache__'')
                    (sort_key name (filter is_dir es))"
  define files where "files = filter (\<lambda>f. \<not> startswith (name f) ''.'') (sort_key name (filter is_file es))"
  define np where "np = pfx @ (if l then SPACES else BAR)"
  define hd0 where "hd0 = pfx @ (if l then ELL else TEE) @ display (Node nm st k es) @ NL"
  define D where "D = fold (\<lambda>(i, d) acc. case acc of Inl e \<Rightarrow> Inl e
                   | Inr out \<Rightarrow> (case generate_tree d np (i = length dirs - 1 \<and> files = []) of Inl e \<Rightarrow> Inl e | Inr sub \<Rightarrow> Inr (out @ sub)))
             (enumerate 0 dirs) (Inr hd0)"
  have unf: "generate_tree (Node nm st k es) pfx l =
     (case D of Inl e \<Rightarrow> Inl e
      | Inr output \<Rightarrow> Inr (fold (\<lambda>(i, f) out. out @ (np @ (if i = length files - 1 then ELL else TEE) @ name f @ NL))
                        (enumerate 0 files) output))"
    unfolding D_def dirs_def files_def np_def hd0_def k
    by (simp only: generate_tree.simps iterdir_def Let_def node.sel kind.case sum.case append_assoc)
  from assms unf obtain o1 where o1: "D = Inr o1"
    and out: "out = fold (\<lambda>(i, f) out. out @ (np @ (if i = length files - 1 then ELL else TEE) @ name f @ NL))
                        (enumerate 0 files) o1"
    by (cases D) auto
  from fold_dirs[OF o1[unfolded D_def]] obtain subs where s: "length subs = length dirs"
    "\<forall>j<length dirs. generate_tree (dirs ! j) np (j = length dirs - 1 \<and> files = []) = Inr (subs ! j)"
    "o1 = hd0 @ concat subs"
    by (auto simp: nth_enumerate_eq)
  have "out = hd0 @ concat subs @ concat (map (\<lambda>(i, f). np @ (if i = length files - 1 then ELL else TEE) @ name f @ NL)
                 (enumerate 0 files))"
    unfolding out fold_files s(3) by simp
  with s(1,2) show ?thesis
    unfolding Let_def dirs_def[symmetric] files_def[symmetric] np_def[symmetric] hd0_def
    by (intro exI[of _ subs]) simp
qed

lemma generate_tree_header:
  assumes "generate_tree p pfx l = Inr out"
  shows "prefix (pfx @ (if l then ELL else TEE) @ display p @ NL) out"
proof -
  obtain nm st k es where p: "p = Node nm st k es" by (cases p)
  from generate_tree_unfolded[OF assms[unfolded p]] show ?thesis
    unfolding p Let_def by (auto simp: prefix_def)
qed


lemma join_str_nonempty: "xs \<noteq> [] \<Longrightarrow> \<forall>x\<in>set xs. x \<noteq> [] \<Longrightarrow> join_str sep xs \<noteq> []"
  by (induction sep xs rule: join_str.induct) auto

lemma path_str_nonempty: "path_str s \<noteq> []"
proof (cases "path_root s = [] \<and> path_tail s = []")
  case True
  then show ?thesis by (simp add: path_str_def)
next
  case False
  have "\<forall>x\<in>set (path_tail s). x \<noteq> []" by (simp add: path_tail_def)
  with False show ?thesis
    by (auto simp: path_str_def dest: join_str_nonempty)
qed

lemma str_open_path: "str (open_path fs p) = path_str p"
  by (simp add: open_path_def split: option.split prod.split)

text \<open>
  C2, as the code has it. The first line of the tree rendered for a root is not the bare
  display name: \<^verbatim>\<open>generate_tree()\<close> runs with an empty prefix and \<^verbatim>\<open>is_last\<close> true, so
  the first line is the terminal connector followed by the display name of the root.
\<close>

theorem root_line_has_connector:
  assumes "generate_tree_default root_path = Inr out"
  shows "prefix (ELL @ display root_path @ NL) out"
  using generate_tree_header[of root_path "[]" True out] assms
  by (simp add: generate_tree_default_def)

theorem root_line_has_connector_witness:
  "generate_tree_default (Node ''repo'' ''/tmp/repo'' KDir []) = Inr (ELL @ ''repo'' @ NL)
   \<and> prefix (ELL @ display (Node ''repo'' ''/tmp/repo'' KDir []) @ NL) (ELL @ ''repo'' @ NL)"
proof -
  have e: "generate_tree_default (Node ''repo'' ''/tmp/repo'' KDir []) = Inr (ELL @ ''repo'' @ NL)"
    by (simp add: generate_tree_default_def iterdir_def Let_def display_def)
  from root_line_has_connector[OF e] e show ?thesis by simp
qed

text \<open>
  C2, as it is stated, fails: for the empty directory \<^verbatim>\<open>/tmp/repo\<close> the output is the
  terminal connector followed by \<^verbatim>\<open>repo\<close> and a line break, which does not start with the
  bare line \<^verbatim>\<open>repo\<close>.
\<close>

theorem root_line_bare_counterexample:
  "generate_tree_default (Node ''repo'' ''/tmp/repo'' KDir []) = Inr (ELL @ ''repo'' @ NL)
   \<and> \<not> prefix (display (Node ''repo'' ''/tmp/repo'' KDir []) @ NL) (ELL @ ''repo'' @ NL)"
  by (simp add: generate_tree_default_def iterdir_def Let_def display_def ELL_def NL_def)

text \<open>
  C10. When the name of the path is empty, the first line of the rendered tree is the
  prefix, the connector and the string form of the path; and the string form of a path
  made from a string is never empty, so nothing blank follows the connector.
\<close>

theorem empty_name_falls_back:
  assumes "name p = []" and "generate_tree p pfx is_last = Inr out"
  shows "prefix (pfx @ (if is_last then ELL else TEE) @ str p @ NL) out
         \<and> str (open_path fs s) \<noteq> []"
  using generate_tree_header[OF assms(2)] assms(1)
  by (simp add: display_def str_open_path path_str_nonempty)

theorem empty_name_falls_back_witness:
  "name (open_path (Map.empty(''/'' \<mapsto> (KDir, []))) ''/'') = []
   \<and> generate_tree (open_path (Map.empty(''/'' \<mapsto> (KDir, []))) ''/'') [] True = Inr (ELL @ ''/'' @ NL)
   \<and> prefix ([] @ (if True then ELL else TEE) @ str (open_path (Map.empty(''/'' \<mapsto> (KDir, []))) ''/'') @ NL)
        (ELL @ ''/'' @ NL)
   \<and> str (open_path (Map.empty(''/'' \<mapsto> (KDir, []))) ''/'') \<noteq> []"
proof -
  have o: "open_path (Map.empty(''/'' \<mapsto> (KDir, []))) ''/'' = Node [] ''/'' KDir []"
    by (simp add: open_path_def path_name_def path_str_def path_tail_def path_root_def startswith_def)
  have n: "name (open_path (Map.empty(''/'' \<mapsto> (KDir, []))) ''/'') = []"
    by (simp add: o)
  have e: "generate_tree (open_path (Map.empty(''/'' \<mapsto> (KDir, []))) ''/'') [] True = Inr (ELL @ ''/'' @ NL)"
    by (simp add: o iterdir_def Let_def display_def)
  from empty_name_falls_back[OF n e, of "Map.empty(''/'' \<mapsto> (KDir, []))" "''/''"] n e
  show ?thesis by simp
qed


text \<open>
  C4. Whenever a directory is rendered, there are the list of its shown subdirectories,
  the list of its shown files and one rendered block per subdirectory such that: the
  subdirectories are exactly the entries that are directories, do not start with a dot
  and are not named \<^verbatim>\<open>__pycache__\<close>, the files exactly the entries that are files and do
  not start with a dot (each entry as often as the directory has it, anything that is
  neither a file nor a directory left out); both lists are sorted by name; the output is
  the line of the directory, then the blocks of the subdirectories in their order, each
  the complete rendering of that subdirectory, then one line per file in their order; and
  a subdirectory is rendered as last, with the terminal connector at the head of its block,
  exactly when it is the last subdirectory and there is no file, a file gets the terminal
  connector exactly when it is the last file, every other entry the continuation connector.
\<close>

theorem generate_tree_level:
  assumes "generate_tree (Node nm st k es) pfx is_last = Inr out"
  shows "\<exists>dirs files subs.
      mset dirs = filter_mset (\<lambda>d. is_dir d \<and> \<not> startswith (name d) ''.'' \<and> name d \<noteq> ''__pycache__'') (mset es)
    \<and> mset files = filter_mset (\<lambda>f. is_file f \<and> \<not> startswith (name f) ''.'') (mset es)
    \<and> sorted (map name dirs) \<and> sorted (map name files)
    \<and> length subs = length dirs
    \<and> (\<forall>i<length dirs.
          generate_tree (dirs ! i) (pfx @ (if is_last then SPACES else BAR))
            (i = length dirs - 1 \<and> files = []) = Inr (subs ! i)
        \<and> prefix (pfx @ (if is_last then SPACES else BAR)
                    @ (if i = length dirs - 1 \<and> files = [] then ELL else TEE)
                    @ display (dirs ! i) @ NL) (subs ! i))
    \<and> out = pfx @ (if is_last then ELL else TEE) @ display (Node nm st k es) @ NL
            @ concat subs
            @ concat (map (\<lambda>(i, f). pfx @ (if is_last then SPACES else BAR)
                                     @ (if i = length files - 1 then ELL else TEE) @ name f @ NL)
                        (enumerate 0 files))"
proof -
  define dirs where "dirs = filter (\<lambda>d. \<not> startswith (name d) ''.'' \<and> name d \<noteq> ''__pycache__'')
                    (sort_key name (filter is_dir es))"
  define files where "files = filter (\<lambda>f. \<not> startswith (name f) ''.'') (sort_key name (filter is_file es))"
  from generate_tree_unfolded[OF assms] obtain subs where
    s: "length subs = length dirs"
       "\<forall>j<length dirs. generate_tree (dirs ! j) (pfx @ (if is_last then SPACES else BAR))
             (j = length dirs - 1 \<and> files = []) = Inr (subs ! j)"
       "out = pfx @ (if is_last then ELL else TEE) @ display (Node nm st k es) @ NL @ concat subs
             @ concat (map (\<lambda>(i, f). (pfx @ (if is_last then SPACES else BAR)) @ (if i = length files - 1 then ELL else TEE) @ name f @ NL)
                 (enumerate 0 files))"
    unfolding Let_def dirs_def files_def by blast
  have md: "mset dirs = filter_mset (\<lambda>d. is_dir d \<and> \<not> startswith (name d) ''.'' \<and> name d \<noteq> ''__pycache__'') (mset es)"
    unfolding dirs_def by (simp add: filter_filter_mset conj_commute conj_left_commute)
  have mf: "mset files = filter_mset (\<lambda>f. is_file f \<and> \<not> startswith (name f) ''.'') (mset es)"
    unfolding files_def by (simp add: filter_filter_mset conj_commute)
  have sd: "sorted (map name dirs)" unfolding dirs_def by (simp add: sorted_filter)
  have sf: "sorted (map name files)" unfolding files_def by (simp add: sorted_filter)
  have hd: "\<forall>i<length dirs.
          generate_tree (dirs ! i) (pfx @ (if is_last then SPACES else BAR))
            (i = length dirs - 1 \<and> files = []) = Inr (subs ! i)
        \<and> prefix (pfx @ (if is_last then SPACES else BAR)
                    @ (if i = length dirs - 1 \<and> files = [] then ELL else TEE)
                    @ display (dirs ! i) @ NL) (subs ! i)"
  proof (intro allI impI)
    fix i assume "i < length dirs"
    with s(2) have g: "generate_tree (dirs ! i) (pfx @ (if is_last then SPACES else BAR))
            (i = length dirs - 1 \<and> files = []) = Inr (subs ! i)" by blast
    from generate_tree_header[OF g] g
    show "generate_tree (dirs ! i) (pfx @ (if is_last then SPACES else BAR))
            (i = length dirs - 1 \<and> files = []) = Inr (subs ! i)
        \<and> prefix (pfx @ (if is_last then SPACES else BAR)
                    @ (if i = length dirs - 1 \<and> files = [] then ELL else TEE)
                    @ display (dirs ! i) @ NL) (subs ! i)" by simp
  qed
  from md mf sd sf s(1) hd s(3) show ?thesis
    by (intro exI[of _ dirs] exI[of _ files] exI[of _ subs]) simp
qed

theorem generate_tree_level_witness:
  "generate_tree (Node ''r'' ''r'' KDir
       [Node ''b.txt'' ''r/b.txt'' KFile [], Node ''.git'' ''r/.git'' KDir [],
        Node ''src'' ''r/src'' KDir [Node ''x.py'' ''r/src/x.py'' KFile []],
        Node ''a.md'' ''r/a.md'' KFile []]) [] True
     = Inr (ELL @ ''r'' @ NL @ SPACES @ TEE @ ''src'' @ NL @ SPACES @ BAR @ ELL @ ''x.py'' @ NL
            @ SPACES @ TEE @ ''a.md'' @ NL @ SPACES @ ELL @ ''b.txt'' @ NL)
   \<and> (\<exists>dirs files subs.
      mset dirs = filter_mset (\<lambda>d. is_dir d \<and> \<not> startswith (name d) ''.'' \<and> name d \<noteq> ''__pycache__'') (mset [Node ''b.txt'' ''r/b.txt'' KFile [], Node ''.git'' ''r/.git'' KDir [],
        Node ''src'' ''r/src'' KDir [Node ''x.py'' ''r/src/x.py'' KFile []],
        Node ''a.md'' ''r/a.md'' KFile []])
    \<and> mset files = filter_mset (\<lambda>f. is_file f \<and> \<not> startswith (name f) ''.'') (mset [Node ''b.txt'' ''r/b.txt'' KFile [], Node ''.git'' ''r/.git'' KDir [],
        Node ''src'' ''r/src'' KDir [Node ''x.py'' ''r/src/x.py'' KFile []],
        Node ''a.md'' ''r/a.md'' KFile []])
    \<and> sorted (map name dirs) \<and> sorted (map name files)
    \<and> length subs = length dirs
    \<and> (\<forall>i<length dirs.
          generate_tree (dirs ! i) ([] @ (if True then SPACES else BAR))
            (i = length dirs - 1 \<and> files = []) = Inr (subs ! i)
        \<and> prefix ([] @ (if True then SPACES else BAR)
                    @ (if i = length dirs - 1 \<and> files = [] then ELL else TEE)
                    @ display (dirs ! i) @ NL) (subs ! i))
    \<and> (ELL @ ''r'' @ NL @ SPACES @ TEE @ ''src'' @ NL @ SPACES @ BAR @ ELL @ ''x.py'' @ NL
            @ SPACES @ TEE @ ''a.md'' @ NL @ SPACES @ ELL @ ''b.txt'' @ NL) = [] @ (if True then ELL else TEE) @ display (Node ''r'' ''r'' KDir
       [Node ''b.txt'' ''r/b.txt'' KFile [], Node ''.git'' ''r/.git'' KDir [],
        Node ''src'' ''r/src'' KDir [Node ''x.py'' ''r/src/x.py'' KFile []],
        Node ''a.md'' ''r/a.md'' KFile []]) @ NL
            @ concat subs
            @ concat (map (\<lambda>(i, f). [] @ (if True then SPACES else BAR)
                                     @ (if i = length files - 1 then ELL else TEE) @ name f @ NL)
                        (enumerate 0 files)))"
proof -
  have e: "generate_tree (Node ''r'' ''r'' KDir
       [Node ''b.txt'' ''r/b.txt'' KFile [], Node ''.git'' ''r/.git'' KDir [],
        Node ''src'' ''r/src'' KDir [Node ''x.py'' ''r/src/x.py'' KFile []],
        Node ''a.md'' ''r/a.md'' KFile []]) [] True
     = Inr (ELL @ ''r'' @ NL @ SPACES @ TEE @ ''src'' @ NL @ SPACES @ BAR @ ELL @ ''x.py'' @ NL
            @ SPACES @ TEE @ ''a.md'' @ NL @ SPACES @ ELL @ ''b.txt'' @ NL)"
    by (simp add: iterdir_def Let_def display_def is_dir_def is_file_def startswith_def)
  show ?thesis
    by (rule conjI[OF e generate_tree_level[OF e]])
qed


section \<open>The content document\<close>

lemma content_loop:
  "fold (\<lambda>file acc.
             (let acc = acc @ ''## '' @ path file @ NL;
                  acc = acc @ ''------------'' @ NL;
                  acc = (case content file of
                           Some text \<Rightarrow> acc @ text
                         | None \<Rightarrow> acc @ ''# Failed to read content'')
              in acc @ NL @ NL)) files acc
   = acc @ concat (map (\<lambda>f. ''## '' @ path f @ NL @ ''------------'' @ NL
          @ (case content f of Some text \<Rightarrow> text | None \<Rightarrow> ''# Failed to read content'')
          @ NL @ NL) files)"
  by (induction files arbitrary: acc) (simp_all add: Let_def split: option.split)

text \<open>
  C5. The content document is a function of the list of entries alone: it is the
  concatenation, in the order of the list, of one block per entry, made of the heading
  \<^verbatim>\<open>## \<close> with the path of the entry, the separator line of twelve dashes, the content
  of the entry (the text \<^verbatim>\<open># Failed to read content\<close> when the content is absent) and
  two line breaks. So no entry is skipped, cut short or moved.
\<close>

theorem content_markdown_sections:
  "create_content_markdown files =
     concat (map (\<lambda>f. ''## '' @ path f @ NL @ ''------------'' @ NL
          @ (case content f of Some text \<Rightarrow> text | None \<Rightarrow> ''# Failed to read content'')
          @ NL @ NL) files)"
  by (simp only: create_content_markdown_def content_loop append_Nil)

theorem content_markdown_sections_witness:
  "create_content_markdown
     [\<lparr>path = ''a/x.py'', content = Some ''print(1)''\<rparr>, \<lparr>path = ''b.bin'', content = None\<rparr>]
   = ''## a/x.py'' @ NL @ ''------------'' @ NL @ ''print(1)'' @ NL @ NL
     @ ''## b.bin'' @ NL @ ''------------'' @ NL @ ''# Failed to read content'' @ NL @ NL"
  using content_markdown_sections
    [of "[\<lparr>path = ''a/x.py'', content = Some ''print(1)''\<rparr>, \<lparr>path = ''b.bin'', content = None\<rparr>]"]
  by simp

section \<open>The name of the document\<close>

lemma split_str_nonempty: "split_str sep s \<noteq> []"
  by (induction s) (auto split: list.split)

lemma split_str_no_sep: "sep \<notin> set s \<Longrightarrow> split_str sep s = [s]"
  by (induction s) auto

lemma split_str_append:
  "split_str sep (pre @ sep # seg) = split_str sep pre @ split_str sep seg"
  by (induction pre) (auto simp: split_str_nonempty split: list.split)

lemma last_split_str: "last (split_str sep (pre @ sep # seg)) = last (split_str sep seg)"
  by (simp add: split_str_append split_str_nonempty)

lemma last_segment:
  assumes "sep \<notin> set seg"
  shows "last (split_str sep (pre @ sep # seg)) = seg"
  using assms by (simp add: last_split_str split_str_no_sep)

lemma replace_no_occurrence:
  "\<not> sublist old s \<Longrightarrow> replace_from old new s = s"
proof (induction s)
  case Nil
  then show ?case by simp
next
  case (Cons c cs)
  then show ?case by (auto simp: sublist_Cons_right)
qed

lemma replace_length_le: "length (replace_from old [] s) \<le> length s"
proof (induction old "[]::string" s rule: replace_from.induct)
  case (1 old)
  then show ?case by simp
next
  case (2 old c cs)
  then show ?case by (auto intro: le_SucI order_trans[OF _ diff_le_self])
qed

lemma replace_shortens:
  "sublist old s \<Longrightarrow> old \<noteq> [] \<Longrightarrow> length (replace_from old [] s) < length s"
proof (induction s)
  case Nil
  then show ?case by simp
next
  case (Cons c cs)
  show ?case
  proof (cases "prefix old (c # cs)")
    case True
    have "length (replace_from old [] (drop (length old - 1) cs)) \<le> length (drop (length old - 1) cs)"
      by (rule replace_length_le)
    with True show ?thesis by simp
  next
    case False
    with Cons.prems have "sublist old cs" by (simp add: sublist_Cons_right)
    with Cons False show ?thesis by simp
  qed
qed

lemma prefix_within:
  assumes "prefix xs (ys @ zs)" and "length xs \<le> length ys"
  shows "prefix xs ys"
  using assms by (auto simp: prefix_append)

lemma replace_at_first_occurrence:
  assumes "old \<noteq> []" and "\<not> sublist old (a @ butlast old)"
  shows "replace_from old new (a @ old @ b) = a @ new @ replace_from old new b"
  using assms(2)
proof (induction a)
  case Nil
  from assms(1) obtain c cs where old: "old = c # cs" by (cases old) auto
  show ?case by (simp add: old)
next
  case (Cons x a)
  have split: "x # a @ old @ b = (x # a @ butlast old) @ (last old # b)"
    using assms(1) by simp
  have "\<not> prefix old (x # a @ old @ b)"
  proof
    assume "prefix old (x # a @ old @ b)"
    then have "prefix old ((x # a @ butlast old) @ (last old # b))" by (simp only: split)
    moreover have "length old \<le> length (x # a @ butlast old)" by simp
    ultimately have "prefix old (x # a @ butlast old)" by (rule prefix_within)
    with Cons.prems show False by (simp add: sublist_Cons_right)
  qed
  moreover from Cons.prems have "\<not> sublist old (a @ butlast old)"
    by (simp add: sublist_Cons_right)
  ultimately show ?case using Cons.IH by simp
qed

lemma first_occurrence_exists:
  assumes "old \<noteq> []"
  shows "sublist old s \<Longrightarrow> \<exists>a b. s = a @ old @ b \<and> \<not> sublist old (a @ butlast old)"
proof (induction s)
  case Nil
  with assms show ?case by simp
next
  case (Cons c cs)
  show ?case
  proof (cases "prefix old (c # cs)")
    case True
    then obtain b where "c # cs = [] @ old @ b" by (auto simp: prefix_def)
    moreover have "\<not> sublist old ([] @ butlast old)"
    proof
      assume "sublist old ([] @ butlast old)"
      then have "sublist old (butlast old)" by simp
      then have "length old \<le> length (butlast old)" by (rule sublist_length_le)
      moreover have "length (butlast old) = length old - 1" by simp
      moreover from assms have "0 < length old" by simp
      ultimately show False by linarith
    qed
    ultimately show ?thesis by blast
  next
    case False
    with Cons.prems have "sublist old cs" by (simp add: sublist_Cons_right)
    from Cons.IH[OF this] obtain a b where ab: "cs = a @ old @ b" "\<not> sublist old (a @ butlast old)"
      by blast
    have "\<not> prefix old (c # a @ butlast old)"
    proof
      assume "prefix old (c # a @ butlast old)"
      then have "prefix old ((c # a @ butlast old) @ (last old # b))" by (rule prefix_prefix)
      moreover from assms have "(c # a @ butlast old) @ (last old # b) = c # a @ old @ b" by simp
      ultimately have "prefix old (c # a @ old @ b)" by (simp only:)
      with ab(1) False show False by simp
    qed
    with ab(2) have "\<not> sublist old ((c # a) @ butlast old)" by (simp add: sublist_Cons_right)
    moreover from ab(1) have "c # cs = (c # a) @ old @ b" by simp
    ultimately show ?thesis by blast
  qed
qed

lemma dot_git_no_overlap:
  assumes "\<not> sublist ''.git'' p"
  shows "\<not> sublist ''.git'' (p @ ''.gi'')"
proof
  assume "sublist ''.git'' (p @ ''.gi'')"
  then consider "sublist ''.git'' p" | "sublist ''.git'' ''.gi''"
    | xs1 xs2 where "''.git'' = xs1 @ xs2" "suffix xs1 p" "prefix xs2 ''.gi''"
    by (auto simp: sublist_append)
  then show False
  proof cases
    case 1
    with assms show ?thesis by simp
  next
    case 2
    then show ?thesis by (simp add: sublist_code)
  next
    case 3
    from 3(3) have "xs2 = [] \<or> xs2 = ''.'' \<or> xs2 = ''.g'' \<or> xs2 = ''.gi''"
      by (auto simp: prefix_Cons)
    with 3(1) have "xs1 = ''.git''" by (auto simp: append_eq_Cons_conv Cons_eq_append_conv)
    with 3(2) assms show False by (auto simp: suffix_def sublist_def)
  qed
qed


lemma replace_pieces:
  assumes "ps \<noteq> []" and "\<forall>p\<in>set ps. \<not> sublist ''.git'' p"
  shows "replace_from ''.git'' [] (join_str ''.git'' ps) = concat ps"
  using assms
proof (induction "''.git''" ps rule: join_str.induct)
  case 1
  then show ?case by simp
next
  case (2 x)
  then show ?case by (simp add: replace_no_occurrence)
next
  case (3 x y ys)
  from 3 have r: "replace_from ''.git'' [] (join_str ''.git'' (y # ys)) = concat (y # ys)"
    by simp
  from "3.prems" have "\<not> sublist ''.git'' (x @ ''.gi'')"
    by (simp add: dot_git_no_overlap)
  then have "\<not> sublist ''.git'' (x @ butlast ''.git'')" by simp
  from replace_at_first_occurrence[OF _ this, of "[]" "join_str ''.git'' (y # ys)"] r
  show ?case by simp
qed

lemma pieces_exist:
  "\<exists>ps. ps \<noteq> [] \<and> s = join_str ''.git'' ps \<and> (\<forall>p\<in>set ps. \<not> sublist ''.git'' p)"
proof (induction s rule: length_induct)
  case (1 s)
  show ?case
  proof (cases "sublist ''.git'' s")
    case False
    then show ?thesis by (intro exI[of _ "[s]"]) simp
  next
    case True
    from first_occurrence_exists[OF _ True] obtain a b where
      ab: "s = a @ ''.git'' @ b" "\<not> sublist ''.git'' (a @ butlast ''.git'')" by auto
    from ab(2) have na: "\<not> sublist ''.git'' a"
      by (simp add: sublist_append)
    from ab(1) have "length b < length s" by simp
    with 1 obtain qs where qs: "qs \<noteq> []" "b = join_str ''.git'' qs"
      "\<forall>p\<in>set qs. \<not> sublist ''.git'' p" by blast
    from qs(1) obtain q qs' where q: "qs = q # qs'" by (cases qs) auto
    from ab(1) qs(2) q have "s = join_str ''.git'' (a # qs)" by simp
    with na qs(3) show ?thesis by (intro exI[of _ "a # qs"]) simp
  qed
qed

text \<open>
  C9. For a remote target, the name is the part of the target after its last \<^verbatim>\<open>/\<close>, with
  every occurrence of \<^verbatim>\<open>.git\<close> taken out, wherever it stands. That part can always be
  cut into pieces that hold no \<^verbatim>\<open>.git\<close> and are joined by \<^verbatim>\<open>.git\<close>, and for every such
  cutting the name is the pieces put together with nothing between them. In particular a
  part without \<^verbatim>\<open>.git\<close> is kept as it is; the text before the first \<^verbatim>\<open>.git\<close> is kept,
  that \<^verbatim>\<open>.git\<close> is dropped and the rest is treated the same way; and a part that holds
  \<^verbatim>\<open>.git\<close> anywhere, not only at its end, gives a shorter name.
\<close>

theorem get_name_remote:
  assumes "is_github self" and "target_path self = pre @ ''/'' @ seg" and "CHR ''/'' \<notin> set seg"
  shows "get_name self = str_replace seg ''.git'' []
     \<and> (\<not> sublist ''.git'' seg \<longrightarrow> get_name self = seg)
     \<and> (\<forall>a b. seg = a @ ''.git'' @ b \<and> \<not> sublist ''.git'' (a @ ''.gi'')
            \<longrightarrow> get_name self = a @ str_replace b ''.git'' [])
     \<and> (sublist ''.git'' seg \<longrightarrow> length (get_name self) < length seg)
     \<and> (\<forall>ps. ps \<noteq> [] \<and> seg = join_str ''.git'' ps \<and> (\<forall>p\<in>set ps. \<not> sublist ''.git'' p)
            \<longrightarrow> get_name self = concat ps)
     \<and> (\<exists>ps. ps \<noteq> [] \<and> seg = join_str ''.git'' ps \<and> (\<forall>p\<in>set ps. \<not> sublist ''.git'' p)
            \<and> get_name self = concat ps)"
proof -
  have g: "get_name self = str_replace seg ''.git'' []"
    using assms last_segment[of "CHR ''/''" seg pre] by (simp add: get_name_def)
  have r: "str_replace seg ''.git'' [] = replace_from ''.git'' [] seg" for seg
    by (simp add: str_replace_def)
  have 1: "\<not> sublist ''.git'' seg \<longrightarrow> get_name self = seg"
    unfolding g r by (simp add: replace_no_occurrence)
  have 2: "\<forall>a b. seg = a @ ''.git'' @ b \<and> \<not> sublist ''.git'' (a @ ''.gi'')
            \<longrightarrow> get_name self = a @ str_replace b ''.git'' []"
  proof (intro allI impI)
    fix a b assume h: "seg = a @ ''.git'' @ b \<and> \<not> sublist ''.git'' (a @ ''.gi'')"
    then have "\<not> sublist ''.git'' (a @ butlast ''.git'')" by simp
    from replace_at_first_occurrence[OF _ this, of "[]" b] h
    show "get_name self = a @ str_replace b ''.git'' []"
      unfolding g r by simp
  qed
  have 3: "sublist ''.git'' seg \<longrightarrow> length (get_name self) < length seg"
    unfolding g r by (simp add: replace_shortens)
  have 4: "\<forall>ps. ps \<noteq> [] \<and> seg = join_str ''.git'' ps \<and> (\<forall>p\<in>set ps. \<not> sublist ''.git'' p)
            \<longrightarrow> get_name self = concat ps"
  proof (intro allI impI)
    fix ps assume h: "ps \<noteq> [] \<and> seg = join_str ''.git'' ps \<and> (\<forall>p\<in>set ps. \<not> sublist ''.git'' p)"
    then have "replace_from ''.git'' [] (join_str ''.git'' ps) = concat ps"
      by (intro replace_pieces) simp_all
    with h show "get_name self = concat ps" unfolding g r by simp
  qed
  from pieces_exist[of seg] obtain ps where
    ps: "ps \<noteq> []" "seg = join_str ''.git'' ps" "\<forall>p\<in>set ps. \<not> sublist ''.git'' p" by blast
  with 4 have "get_name self = concat ps" by blast
  with ps have 5: "\<exists>ps. ps \<noteq> [] \<and> seg = join_str ''.git'' ps \<and> (\<forall>p\<in>set ps. \<not> sublist ''.git'' p)
            \<and> get_name self = concat ps" by blast
  show ?thesis
    by (intro conjI) (rule g, rule 1, rule 2, rule 3, rule 4, rule 5)
qed

theorem get_name_remote_witness:
  "is_github (init (example_env (None, None)) ''https://github.com/u/my.github.io.git'' None)
   \<and> get_name (init (example_env (None, None)) ''https://github.com/u/my.github.io.git'' None)
       = ''myhub.io''
   \<and> sublist ''.git'' ''my.github.io.git''
   \<and> length ''myhub.io'' < length ''my.github.io.git''
   \<and> is_github (init (example_env (None, None)) ''https://github.com/u/v1.2.git.mirror.git'' None)
   \<and> ''v1.2.git.mirror.git'' = join_str ''.git'' [''v1.2'', ''.mirror'', []]
   \<and> get_name (init (example_env (None, None)) ''https://github.com/u/v1.2.git.mirror.git'' None)
       = ''v1.2.mirror''"
proof -
  let ?g = "init (example_env (None, None)) ''https://github.com/u/my.github.io.git'' None"
  let ?h = "init (example_env (None, None)) ''https://github.com/u/v1.2.git.mirror.git'' None"
  have i: "is_github ?g" by (simp add: init_def startswith_def sublist_code)
  have t: "target_path ?g = ''https://github.com/u'' @ ''/'' @ ''my.github.io.git''"
    by (simp add: init_def)
  have n: "CHR ''/'' \<notin> set ''my.github.io.git''" by simp
  have s: "sublist ''.git'' ''my.github.io.git''" by (simp add: sublist_code)
  have p: "[''my'', ''hub.io'', []] \<noteq> [] \<and> ''my.github.io.git'' = join_str ''.git'' [''my'', ''hub.io'', []]
      \<and> (\<forall>p\<in>set [''my'', ''hub.io'', []]. \<not> sublist ''.git'' p)"
    by (simp add: sublist_code)
  from get_name_remote[OF i t n] have a: "\<forall>ps. ps \<noteq> [] \<and> ''my.github.io.git'' = join_str ''.git'' ps
      \<and> (\<forall>p\<in>set ps. \<not> sublist ''.git'' p) \<longrightarrow> get_name ?g = concat ps"
    by blast
  from a[rule_format, OF p] have 1: "get_name ?g = ''myhub.io''" by simp
  have i': "is_github ?h" by (simp add: init_def startswith_def sublist_code)
  have t': "target_path ?h = ''https://github.com/u'' @ ''/'' @ ''v1.2.git.mirror.git''"
    by (simp add: init_def)
  have n': "CHR ''/'' \<notin> set ''v1.2.git.mirror.git''" by simp
  have p': "[''v1.2'', ''.mirror'', []] \<noteq> [] \<and> ''v1.2.git.mirror.git'' = join_str ''.git'' [''v1.2'', ''.mirror'', []]
      \<and> (\<forall>p\<in>set [''v1.2'', ''.mirror'', []]. \<not> sublist ''.git'' p)"
    by (simp add: sublist_code)
  from get_name_remote[OF i' t' n'] have a': "\<forall>ps. ps \<noteq> [] \<and> ''v1.2.git.mirror.git'' = join_str ''.git'' ps
      \<and> (\<forall>p\<in>set ps. \<not> sublist ''.git'' p) \<longrightarrow> get_name ?h = concat ps"
    by blast
  from a'[rule_format, OF p'] have 2: "get_name ?h = ''v1.2.mirror''" by simp
  from p' have j: "''v1.2.git.mirror.git'' = join_str ''.git'' [''v1.2'', ''.mirror'', []]" by blast
  have l: "length ''myhub.io'' < length ''my.github.io.git''" by simp
  show ?thesis
    by (intro conjI) (rule i, rule 1, rule s, rule l, rule i', rule j, rule 2)
qed


section \<open>The pipeline and its temporary directory\<close>

lemma try_body_state: "snd (try_body env self fs) = snd (acquire env self fs)"
  by (auto simp: try_body_def Let_def split: prod.split sum.split)

lemma try_body_acquire_failed:
  "fst (acquire env self fs) = Inl e \<Longrightarrow> fst (try_body env self fs) = Inl e"
  by (auto simp: try_body_def split: prod.split sum.split)

lemma acquire_local: "\<not> is_github self \<Longrightarrow> snd (acquire env self fs) = (self, fs)"
  by (simp add: acquire_def Let_def)

lemma acquire_mkdtemp_failed:
  "is_github self \<Longrightarrow> mkdtemp env = Inl e \<Longrightarrow> acquire env self fs = (Inl e, self, fs)"
  by (simp add: acquire_def)

lemma acquire_remote:
  assumes "is_github self" and "mkdtemp env = Inr t"
  shows "\<exists>fs1. snd (acquire env self fs) = (self\<lparr>temp_dir := Some t\<rparr>, fs1)
           \<and> (fs1 t = None \<or> (\<exists>es. fs1 t = Some (KDir, es)))"
  using assms
  by (auto simp: acquire_def Let_def split: prod.split option.split)

lemma finally_not_there:
  "(case temp_dir self of None \<Rightarrow> True | Some t \<Rightarrow> \<not> exists_path fs t)
     \<Longrightarrow> finally_block self fs = (None, fs)"
  by (auto simp: finally_block_def split: option.split)

lemma finally_local: "\<not> is_github self \<Longrightarrow> finally_block self fs = (None, fs)"
  by (auto simp: finally_block_def split: option.split)

lemma finally_remote:
  assumes "is_github self" and "temp_dir self = Some t"
    and "fs t = None \<or> (\<exists>es. fs t = Some (KDir, es))"
  shows "\<exists>fs'. finally_block self fs = (None, fs') \<and> fs' t = None"
  using assms
  by (auto simp: finally_block_def exists_path_def rmtree_def under_def)

lemma finally_twice:
  assumes "finally_block self fs = (None, fs')"
  shows "finally_block self fs' = (None, fs')"
proof (cases "temp_dir self")
  case None
  with assms show ?thesis by (simp add: finally_block_def)
next
  case (Some t)
  show ?thesis
  proof (cases "is_github self \<and> exists_path fs t")
    case True
    with assms Some have "fs' t = None"
      by (auto simp: finally_block_def exists_path_def rmtree_def under_def
          split: sum.splits if_splits)
    with Some show ?thesis by (simp add: finally_block_def exists_path_def)
  next
    case False
    with assms Some have "fs' = fs" by (auto simp: finally_block_def)
    with False Some show ?thesis by (auto simp: finally_block_def)
  qed
qed


lemma generate_markdowns_remote:
  assumes "is_github self" and "mkdtemp env = Inr t"
  shows "\<exists>r fs1 fs'. try_body env self fs = (r, self\<lparr>temp_dir := Some t\<rparr>, fs1)
           \<and> finally_block (self\<lparr>temp_dir := Some t\<rparr>) fs1 = (None, fs')
           \<and> fs' t = None
           \<and> generate_markdowns env self fs = (r, self\<lparr>temp_dir := Some t\<rparr>, fs')"
proof -
  from acquire_remote[OF assms, of fs] obtain fs1 where
    a: "snd (acquire env self fs) = (self\<lparr>temp_dir := Some t\<rparr>, fs1)"
    and k: "fs1 t = None \<or> (\<exists>es. fs1 t = Some (KDir, es))" by blast
  obtain r where tb: "try_body env self fs = (r, self\<lparr>temp_dir := Some t\<rparr>, fs1)"
    using try_body_state[of env self fs] a by (cases "try_body env self fs") simp
  from finally_remote[of "self\<lparr>temp_dir := Some t\<rparr>" t fs1] assms(1) k
  obtain fs' where f: "finally_block (self\<lparr>temp_dir := Some t\<rparr>) fs1 = (None, fs')" "fs' t = None"
    by auto
  from tb f show ?thesis
    by (simp add: generate_markdowns_def)
qed

lemma generate_markdowns_local:
  assumes "\<not> is_github self"
  shows "generate_markdowns env self fs = (fst (try_body env self fs), self, fs)"
proof -
  obtain r where tb: "try_body env self fs = (r, self, fs)"
    using try_body_state[of env self fs] acquire_local[OF assms, of env fs]
    by (cases "try_body env self fs") simp
  with finally_local[OF assms] show ?thesis
    by (simp add: generate_markdowns_def)
qed

lemma generate_markdowns_mkdtemp_failed:
  assumes "is_github self" and "mkdtemp env = Inl e" and "temp_dir self = None"
  shows "generate_markdowns env self fs = (Inl e, self, fs)"
proof -
  from acquire_mkdtemp_failed[OF assms(1,2)] have "try_body env self fs = (Inl e, self, fs)"
    by (simp add: try_body_def)
  with assms(3) show ?thesis
    by (simp add: generate_markdowns_def finally_block_def)
qed

text \<open>
  C1. In a run on a remote target in which the temporary directory was created, whatever
  the clone, the tree renderer and the scanner do afterwards, the directory does not exist
  when \<^verbatim>\<open>generate_markdowns\<close> gives control back, and what the caller gets (the documents
  or the exception) is what the body of the \<^verbatim>\<open>try\<close> produced.
\<close>

theorem temp_dir_removed:
  assumes "is_github self" and "mkdtemp env = Inr t"
  shows "\<not> exists_path (snd (snd (generate_markdowns env self fs))) t
       \<and> fst (generate_markdowns env self fs) = fst (try_body env self fs)"
  using generate_markdowns_remote[OF assms, of fs]
  by (auto simp: exists_path_def)

theorem temp_dir_removed_witness:
  "is_github (init (example_env (Some [Node ''.git'' ''/tmp/tmpq1/.git'' KDir []], Some (External ''clone failed'')))
                ''https://github.com/u/r.git'' None)
   \<and> mkdtemp (example_env (Some [Node ''.git'' ''/tmp/tmpq1/.git'' KDir []], Some (External ''clone failed'')))
       = Inr ''/tmp/tmpq1''
   \<and> fst (generate_markdowns
            (example_env (Some [Node ''.git'' ''/tmp/tmpq1/.git'' KDir []], Some (External ''clone failed'')))
            (init (example_env (Some [Node ''.git'' ''/tmp/tmpq1/.git'' KDir []], Some (External ''clone failed'')))
                ''https://github.com/u/r.git'' None)
            Map.empty) = Inl (External ''clone failed'')
   \<and> \<not> exists_path (snd (snd (generate_markdowns
            (example_env (Some [Node ''.git'' ''/tmp/tmpq1/.git'' KDir []], Some (External ''clone failed'')))
            (init (example_env (Some [Node ''.git'' ''/tmp/tmpq1/.git'' KDir []], Some (External ''clone failed'')))
                ''https://github.com/u/r.git'' None)
            Map.empty))) ''/tmp/tmpq1''"
proof -
  let ?env = "example_env (Some [Node ''.git'' ''/tmp/tmpq1/.git'' KDir []], Some (External ''clone failed''))"
  let ?g = "init ?env ''https://github.com/u/r.git'' None"
  have i: "is_github ?g" by (simp add: init_def startswith_def sublist_code)
  have m: "mkdtemp ?env = Inr ''/tmp/tmpq1''" by (simp add: example_env_def)
  have b: "fst (try_body ?env ?g Map.empty) = Inl (External ''clone failed'')"
    using i by (simp add: try_body_def acquire_def example_env_def Let_def)
  from temp_dir_removed[OF i m, of Map.empty] b i m show ?thesis by simp
qed

text \<open>
  C6. A run on a local target leaves the whole file system, and so the working directory of
  the caller and everything under it, as it found it, whether it returns the documents or
  raises; the generator is unchanged too.
\<close>

theorem local_untouched:
  assumes "\<not> is_github self"
  shows "snd (generate_markdowns env self fs) = (self, fs)"
  using generate_markdowns_local[OF assms, of env fs] by simp

theorem local_untouched_witness:
  "\<not> is_github (init (example_env (None, None)) ''proj'' None)
   \<and> snd (generate_markdowns (example_env (None, None)) (init (example_env (None, None)) ''proj'' None)
        (Map.empty(''proj'' \<mapsto> (KDir, [Node ''a.py'' ''proj/a.py'' KFile []]))))
     = (init (example_env (None, None)) ''proj'' None,
        Map.empty(''proj'' \<mapsto> (KDir, [Node ''a.py'' ''proj/a.py'' KFile []])))"
proof -
  have i: "\<not> is_github (init (example_env (None, None)) ''proj'' None)"
    by (simp add: init_def startswith_def)
  from local_untouched[OF i] i show ?thesis by simp
qed


text \<open>
  C7. The release step is the \<^verbatim>\<open>finally\<close> block. When there is no temporary directory,
  or the one recorded no longer exists, it changes nothing and raises nothing; so after a
  release that went through, a second release changes nothing and raises nothing; and
  after any run of a generator that starts without a temporary directory, also one whose
  acquisition failed on the way (no directory created, or the clone raised), a further
  release changes nothing and raises nothing.
\<close>

theorem release_idempotent:
  "((case temp_dir self of None \<Rightarrow> True | Some t \<Rightarrow> \<not> exists_path fs t)
       \<longrightarrow> finally_block self fs = (None, fs))
   \<and> (finally_block self fs = (None, fs') \<longrightarrow> finally_block self fs' = (None, fs'))
   \<and> (temp_dir self = None
       \<longrightarrow> finally_block (fst (snd (generate_markdowns env self fs)))
                          (snd (snd (generate_markdowns env self fs)))
           = (None, snd (snd (generate_markdowns env self fs))))"
proof (intro conjI impI)
  assume "case temp_dir self of None \<Rightarrow> True | Some t \<Rightarrow> \<not> exists_path fs t"
  then show "finally_block self fs = (None, fs)" by (rule finally_not_there)
next
  assume "finally_block self fs = (None, fs')"
  then show "finally_block self fs' = (None, fs')" by (rule finally_twice)
next
  assume n: "temp_dir self = None"
  show "finally_block (fst (snd (generate_markdowns env self fs)))
                          (snd (snd (generate_markdowns env self fs)))
           = (None, snd (snd (generate_markdowns env self fs)))"
  proof (cases "is_github self")
    case False
    then show ?thesis
      by (simp add: generate_markdowns_local finally_local)
  next
    case True
    show ?thesis
    proof (cases "mkdtemp env")
      case (Inl e)
      from generate_markdowns_mkdtemp_failed[OF True Inl n, of fs] n show ?thesis
        by (simp add: finally_block_def)
    next
      case (Inr t)
      from generate_markdowns_remote[OF True Inr, of fs] obtain r fs1 fs2 where
        f: "finally_block (self\<lparr>temp_dir := Some t\<rparr>) fs1 = (None, fs2)"
        and g: "generate_markdowns env self fs = (r, self\<lparr>temp_dir := Some t\<rparr>, fs2)"
        by blast
      from finally_twice[OF f] g show ?thesis by simp
    qed
  qed
qed

theorem release_idempotent_witness:
  "(case temp_dir \<lparr>target_path = ''https://github.com/u/r'', timestamp = [],
        temp_dir = Some ''/tmp/tmpq1'', is_github = True, target_extensions = {}\<rparr>
      of None \<Rightarrow> True | Some t \<Rightarrow> \<not> exists_path Map.empty t)
   \<and> finally_block \<lparr>target_path = ''https://github.com/u/r'', timestamp = [],
        temp_dir = Some ''/tmp/tmpq1'', is_github = True, target_extensions = {}\<rparr> Map.empty
      = (None, Map.empty)
   \<and> temp_dir (init (example_env (None, Some (External ''clone failed''))) ''https://github.com/u/r'' None) = None
   \<and> finally_block
        (fst (snd (generate_markdowns (example_env (None, Some (External ''clone failed'')))
           (init (example_env (None, Some (External ''clone failed''))) ''https://github.com/u/r'' None)
           Map.empty)))
        (snd (snd (generate_markdowns (example_env (None, Some (External ''clone failed'')))
           (init (example_env (None, Some (External ''clone failed''))) ''https://github.com/u/r'' None)
           Map.empty)))
      = (None, snd (snd (generate_markdowns (example_env (None, Some (External ''clone failed'')))
           (init (example_env (None, Some (External ''clone failed''))) ''https://github.com/u/r'' None)
           Map.empty)))"
proof -
  let ?s = "\<lparr>target_path = ''https://github.com/u/r'', timestamp = [],
        temp_dir = Some ''/tmp/tmpq1'', is_github = True, target_extensions = {}\<rparr>"
  let ?env = "example_env (None, Some (External ''clone failed''))"
  let ?g = "init ?env ''https://github.com/u/r'' None"
  have a: "case temp_dir ?s of None \<Rightarrow> True | Some t \<Rightarrow> \<not> exists_path Map.empty t"
    by (simp add: exists_path_def)
  have n: "temp_dir ?g = None" by (simp add: init_def)
  from release_idempotent[where self = ?s and fs = Map.empty] a
  have 1: "finally_block ?s Map.empty = (None, Map.empty)" by blast
  from release_idempotent[where self = ?g and fs = Map.empty and env = ?env] n
  have 2: "finally_block (fst (snd (generate_markdowns ?env ?g Map.empty)))
             (snd (snd (generate_markdowns ?env ?g Map.empty)))
           = (None, snd (snd (generate_markdowns ?env ?g Map.empty)))" by blast
  from a n 1 2 show ?thesis by blast
qed

text \<open>
  C3, as it is stated, fails: a local target that exists and is a regular file passes the
  acquisition, although it is not a directory; the run then ends in the tree renderer with
  a not-a-directory error, not with the acquisition error.
\<close>

theorem acquire_accepts_file_counterexample:
  "\<not> is_github (init (example_env (None, None)) ''notes.txt'' None)
   \<and> acquire (example_env (None, None)) (init (example_env (None, None)) ''notes.txt'' None)
        (Map.empty(''notes.txt'' \<mapsto> (KFile, [])))
      = (Inr ''notes.txt'', init (example_env (None, None)) ''notes.txt'' None,
         Map.empty(''notes.txt'' \<mapsto> (KFile, [])))
   \<and> \<not> is_dir (open_path (Map.empty(''notes.txt'' \<mapsto> (KFile, []))) ''notes.txt'')
   \<and> fst (generate_markdowns (example_env (None, None)) (init (example_env (None, None)) ''notes.txt'' None)
        (Map.empty(''notes.txt'' \<mapsto> (KFile, [])))) = Inl (NotADirectoryError ''notes.txt'')"
proof -
  let ?env = "example_env (None, None)"
  let ?g = "init ?env ''notes.txt'' None"
  let ?fs = "Map.empty(''notes.txt'' \<mapsto> (KFile, []))"
  have i: "\<not> is_github ?g" by (simp add: init_def startswith_def)
  have a: "acquire ?env ?g ?fs = (Inr ''notes.txt'', ?g, ?fs)"
    by (simp add: acquire_def exists_path_def Let_def init_def startswith_def sublist_code)
  have o: "open_path ?fs ''notes.txt'' = Node ''notes.txt'' ''notes.txt'' KFile []"
    by (simp add: open_path_def path_name_def path_str_def path_tail_def path_root_def startswith_def)
  have d: "\<not> is_dir (open_path ?fs ''notes.txt'')" by (simp add: o is_dir_def)
  have t: "fst (try_body ?env ?g ?fs) = Inl (NotADirectoryError ''notes.txt'')"
    by (simp add: try_body_def a o generate_tree_default_def iterdir_def Let_def)
  from i a d t show ?thesis by (simp add: generate_markdowns_local)
qed

text \<open>
  C3, as the code has it. For a local target the acquisition only asks whether the path
  exists. If it does not, the run ends with the acquisition error
  \<^verbatim>\<open>ValueError("Directory not found: ...")\<close>, returns no document and changes nothing. If
  it exists, the acquisition succeeds with the path itself; when the path is not a
  directory that can be listed, the run still ends with an error and no document, raised
  by the tree renderer and different from the acquisition error.
\<close>

theorem local_acquisition:
  assumes "\<not> is_github self"
  shows "(\<not> exists_path fs (target_path self)
            \<longrightarrow> generate_markdowns env self fs
                 = (Inl (ValueError (''Directory not found: '' @ path_str (target_path self))), self, fs))
       \<and> (exists_path fs (target_path self)
            \<longrightarrow> acquire env self fs = (Inr (target_path self), self, fs))
       \<and> (exists_path fs (target_path self) \<and> kind (open_path fs (target_path self)) \<noteq> KDir
            \<longrightarrow> (\<exists>e. fst (generate_markdowns env self fs) = Inl e
                      \<and> e \<noteq> ValueError (''Directory not found: '' @ path_str (target_path self))))"
proof (intro conjI impI)
  assume n: "\<not> exists_path fs (target_path self)"
  with assms have "fst (try_body env self fs)
      = Inl (ValueError (''Directory not found: '' @ path_str (target_path self)))"
    by (simp add: try_body_def acquire_def Let_def)
  with assms show "generate_markdowns env self fs
      = (Inl (ValueError (''Directory not found: '' @ path_str (target_path self))), self, fs)"
    by (simp add: generate_markdowns_local)
next
  assume "exists_path fs (target_path self)"
  with assms show "acquire env self fs = (Inr (target_path self), self, fs)"
    by (simp add: acquire_def Let_def)
next
  assume e: "exists_path fs (target_path self) \<and> kind (open_path fs (target_path self)) \<noteq> KDir"
  with assms have a: "acquire env self fs = (Inr (target_path self), self, fs)"
    by (simp add: acquire_def Let_def)
  obtain nm st k es where o: "open_path fs (target_path self) = Node nm st k es"
    by (cases "open_path fs (target_path self)")
  with e have k: "k \<noteq> KDir" by simp
  then obtain x where x: "generate_tree_default (open_path fs (target_path self)) = Inl x"
    "x = PermissionError st \<or> x = NotADirectoryError st \<or> x = FileNotFoundError st"
    unfolding o generate_tree_default_def by (cases k) (simp_all add: iterdir_def)
  from a x(1) have "fst (try_body env self fs) = Inl x"
    by (simp add: try_body_def)
  with assms x(2) show "\<exists>e. fst (generate_markdowns env self fs) = Inl e
                      \<and> e \<noteq> ValueError (''Directory not found: '' @ path_str (target_path self))"
    by (auto simp: generate_markdowns_local)
qed

theorem local_acquisition_witness:
  "\<not> is_github (init (example_env (None, None)) ''gone'' None)
   \<and> \<not> exists_path Map.empty (target_path (init (example_env (None, None)) ''gone'' None))
   \<and> generate_markdowns (example_env (None, None)) (init (example_env (None, None)) ''gone'' None) Map.empty
      = (Inl (ValueError ''Directory not found: gone''), init (example_env (None, None)) ''gone'' None, Map.empty)"
proof -
  let ?env = "example_env (None, None)"
  let ?g = "init ?env ''gone'' None"
  have i: "\<not> is_github ?g" by (simp add: init_def startswith_def)
  have n: "\<not> exists_path Map.empty (target_path ?g)" by (simp add: exists_path_def)
  have p: "path_str (target_path ?g) = ''gone''"
    by (simp add: init_def path_str_def path_tail_def path_root_def startswith_def)
  from local_acquisition[OF i, of Map.empty ?env] n
  have "generate_markdowns ?env ?g Map.empty
      = (Inl (ValueError (''Directory not found: '' @ path_str (target_path ?g))), ?g, Map.empty)"
    by blast
  with i n p show ?thesis by simp
qed


section \<open>The command line\<close>

text \<open>
  C8. \<^verbatim>\<open>main\<close> returns 0 or 1. With an argument list that is not the program name and
  exactly one argument it prints the usage line and returns 1. With one argument: when the
  pipeline raises, it prints the error line with the message of the exception and returns
  1; when the pipeline returns the documents and both files are written, it returns 0
  and has written the two files; when writing the first or the second file raises, it
  prints the error line with the message of that exception and returns 1. It returns 0
  only in a run with one argument whose pipeline returned the documents.
\<close>

theorem main_exit_code:
  "(code (main env argv fs) = 0 \<or> code (main env argv fs) = 1)
   \<and> (length argv \<noteq> 2
        \<longrightarrow> main env argv fs = \<lparr>code = 1, stdout = [USAGE], written = [], disk = fs\<rparr>)
   \<and> (length argv = 2 \<and> generate_markdowns env (init env (argv ! 1) None) fs = (Inl e, g, fs')
        \<longrightarrow> main env argv fs
            = \<lparr>code = 1, stdout = [''Processing: '' @ argv ! 1, ERROR_MSG @ str_of_error e],
               written = [], disk = fs'\<rparr>)
   \<and> (length argv = 2
        \<and> generate_markdowns env (init env (argv ! 1) None) fs = (Inr (c, s, fl), g, fs')
        \<longrightarrow> (write_file env (get_name g @ ''_content_'' @ now_short env @ ''.md'') c = None
              \<and> write_file env (get_name g @ ''_structure_'' @ now_short env @ ''.md'') s = None
              \<longrightarrow> code (main env argv fs) = 0
                  \<and> written (main env argv fs)
                      = [(get_name g @ ''_content_'' @ now_short env @ ''.md'', c),
                         (get_name g @ ''_structure_'' @ now_short env @ ''.md'', s)])
          \<and> (write_file env (get_name g @ ''_content_'' @ now_short env @ ''.md'') c = Some x
              \<or> write_file env (get_name g @ ''_content_'' @ now_short env @ ''.md'') c = None
                 \<and> write_file env (get_name g @ ''_structure_'' @ now_short env @ ''.md'') s = Some x
              \<longrightarrow> code (main env argv fs) = 1
                  \<and> last (stdout (main env argv fs)) = ERROR_MSG @ str_of_error x))
   \<and> (code (main env argv fs) = 0
        \<longrightarrow> length argv = 2
            \<and> (\<exists>c s fl g fs'. generate_markdowns env (init env (argv ! 1) None) fs
                  = (Inr (c, s, fl), g, fs')))"
proof (cases "length argv = 2")
  case False
  then show ?thesis by (simp add: main_def)
next
  case True
  obtain r g0 fs0 where gm: "generate_markdowns env (init env (argv ! 1) None) fs = (r, g0, fs0)"
    by (cases "generate_markdowns env (init env (argv ! 1) None) fs")
  show ?thesis
  proof (cases r)
    case (Inl e0)
    with True gm show ?thesis by (simp add: main_def)
  next
    case (Inr docs)
    obtain c0 s0 fl0 where docs: "docs = (c0, s0, fl0)" by (cases docs)
    from True gm Inr docs show ?thesis
      by (auto simp: main_def Let_def split: option.split)
  qed
qed


theorem main_exit_code_witness:
  "length [''main.py''] \<noteq> 2
   \<and> main (example_env (None, None)) [''main.py''] Map.empty
       = \<lparr>code = 1, stdout = [USAGE], written = [], disk = Map.empty\<rparr>
   \<and> generate_markdowns (example_env (None, None)) (init (example_env (None, None)) ''gone'' None) Map.empty
       = (Inl (ValueError ''Directory not found: gone''), init (example_env (None, None)) ''gone'' None,
          Map.empty)
   \<and> main (example_env (None, None)) [''main.py'', ''gone''] Map.empty
       = \<lparr>code = 1, stdout = [''Processing: gone'', ERROR_MSG @ ''Directory not found: gone''],
          written = [], disk = Map.empty\<rparr>
   \<and> generate_markdowns (example_env (None, None)) (init (example_env (None, None)) ''proj'' None)
         (Map.empty(''proj'' \<mapsto> (KDir, [])))
       = (Inr ([], create_structure_markdown (example_env (None, None))
                     (init (example_env (None, None)) ''proj'' None) (ELL @ ''proj'' @ NL), []),
          init (example_env (None, None)) ''proj'' None, Map.empty(''proj'' \<mapsto> (KDir, [])))
   \<and> code (main (example_env (None, None)) [''main.py'', ''proj''] (Map.empty(''proj'' \<mapsto> (KDir, [])))) = 0"
proof -
  let ?env = "example_env (None, None)"
  let ?fs = "Map.empty(''proj'' \<mapsto> (KDir, []))"
  have l: "length [''main.py''] \<noteq> 2" by simp
  have i: "\<not> is_github (init ?env t None)" if "\<not> startswith t ''http://''" "\<not> startswith t ''https://''" for t
    using that by (simp add: init_def)
  have i1: "\<not> is_github (init ?env ''gone'' None)" by (rule i) (simp_all add: startswith_def)
  have i2: "\<not> is_github (init ?env ''proj'' None)" by (rule i) (simp_all add: startswith_def)
  have tp: "target_path (init ?env t None) = t" for t by (simp add: init_def)
  have p1: "path_str ''gone'' = ''gone''"
    by (simp add: path_str_def path_tail_def path_root_def startswith_def)
  have t1: "fst (try_body ?env (init ?env ''gone'' None) Map.empty)
      = Inl (ValueError ''Directory not found: gone'')"
    using i1 by (simp add: try_body_def acquire_def Let_def exists_path_def p1 tp)
  have g1: "generate_markdowns ?env (init ?env ''gone'' None) Map.empty
       = (Inl (ValueError ''Directory not found: gone''), init ?env ''gone'' None, Map.empty)"
    using i1 t1 by (simp add: generate_markdowns_local)
  have o2: "open_path ?fs ''proj'' = Node ''proj'' ''proj'' KDir []"
    by (simp add: open_path_def path_name_def path_str_def path_tail_def path_root_def startswith_def)
  have a2: "acquire ?env (init ?env ''proj'' None) ?fs = (Inr ''proj'', init ?env ''proj'' None, ?fs)"
    using i2 by (simp add: acquire_def Let_def exists_path_def tp)
  have s2: "scan_files ?env n x = Inr []" for n x by (simp add: example_env_def)
  have t2: "fst (try_body ?env (init ?env ''proj'' None) ?fs)
      = Inr ([], create_structure_markdown ?env (init ?env ''proj'' None) (ELL @ ''proj'' @ NL), [])"
    by (simp add: try_body_def a2 o2 s2 generate_tree_default_def iterdir_def Let_def display_def
        create_content_markdown_def)
  have g2: "generate_markdowns ?env (init ?env ''proj'' None) ?fs
       = (Inr ([], create_structure_markdown ?env (init ?env ''proj'' None) (ELL @ ''proj'' @ NL), []),
          init ?env ''proj'' None, ?fs)"
    using i2 t2 by (simp add: generate_markdowns_local)
  have w: "write_file ?env f c = None" for f c by (simp add: example_env_def)
  from main_exit_code[where env = ?env and argv = "[''main.py'']" and fs = Map.empty] l
  have 1: "main ?env [''main.py''] Map.empty
       = \<lparr>code = 1, stdout = [USAGE], written = [], disk = Map.empty\<rparr>" by blast
  from main_exit_code[where env = ?env and argv = "[''main.py'', ''gone'']" and fs = Map.empty
      and e = "ValueError ''Directory not found: gone''" and g = "init ?env ''gone'' None"
      and fs' = Map.empty] g1
  have 2: "main ?env [''main.py'', ''gone''] Map.empty
       = \<lparr>code = 1, stdout = [''Processing: gone'', ERROR_MSG @ ''Directory not found: gone''],
          written = [], disk = Map.empty\<rparr>" by simp
  from main_exit_code[where env = ?env and argv = "[''main.py'', ''proj'']" and fs = ?fs
      and c = "[]" and s = "create_structure_markdown ?env (init ?env ''proj'' None) (ELL @ ''proj'' @ NL)"
      and fl = "[]" and g = "init ?env ''proj'' None" and fs' = ?fs] g2 w
  have 3: "code (main ?env [''main.py'', ''proj''] ?fs) = 0" by simp
  from l 1 g1 2 g2 3 show ?thesis by blast
qed


end
